theory Spec2Isabelle
  imports Complex_Main "HOL-Library.Word"
begin

unbundle bit_operations_syntax

section \<open>Machine model\<close>

text \<open>
  The allocator is written for a 64-bit target: \<open>size_t\<close> and pointers are 64-bit words,
  \<open>int\<close> is a 32-bit word read in two's complement, and the null pointer is the word \<open>0\<close>.
  The only memory the allocator itself reads or writes is the first machine word of a
  slot or block (the intrusive \<open>next\<close> link), so memory is a function from the address of
  a slot to the pointer stored in its first word.

  Calls that leave the modelled classes (the system allocator, and generation 2's
  \<open>CentralCache\<close>) are appended to a trace together with the value they returned.
\<close>

type_synonym size_t = "64 word"
type_synonym addr = "64 word"
type_synonym cint = "32 word"

datatype call =
    OperatorNew size_t addr
  | OperatorDelete addr
  | Malloc size_t addr
  | Free addr
  | FetchRange size_t addr
  | RerurnRange addr size_t size_t

record machine =
  mem :: "addr \<Rightarrow> addr"
  trace :: "call list"

datatype error = OutOfRange | AssertionFailed | ModuloByZero

section \<open>Generation 1: version1/ZPmemoryPool.h and version1/ZPmemoryPool.cc\<close>

definition MEMORY_POOL_NUM :: cint where
  "MEMORY_POOL_NUM = 64"

definition SLOT_BASE_SIZE :: "'a::len word" where
  "SLOT_BASE_SIZE = 8"

definition MAX_SLOT_SIZE :: size_t where
  "MAX_SLOT_SIZE = 512"

definition sizeof_Slot :: size_t where
  "sizeof_Slot = 8"

record MemoryPool =
  block_size :: size_t
  slot_size :: size_t
  first_block :: addr
  current_slot :: addr
  free_list :: addr
  last_slot :: addr

text \<open>The constructor \<open>MemoryPool(size_t block_size = 4096)\<close>.\<close>

definition MemoryPool_new :: "size_t \<Rightarrow> MemoryPool" where
  "MemoryPool_new bs =
     \<lparr>block_size = bs, slot_size = 0, first_block = 0,
      current_slot = 0, free_list = 0, last_slot = 0\<rparr>"

text \<open>\<open>MemoryPool::init\<close>; the \<open>assert(size > 0)\<close> is a branch of the model.\<close>

definition init :: "size_t \<Rightarrow> MemoryPool \<Rightarrow> error + MemoryPool" where
  "init sz p =
     (if \<not> sz > 0 then Inl AssertionFailed
      else Inr (p\<lparr>slot_size := sz, first_block := 0, current_slot := 0,
                  free_list := 0, last_slot := 0\<rparr>))"

text \<open>
  \<open>MemoryPool::PadPointer\<close>: \<open>(align - (size_t)p) % align\<close> in \<open>size_t\<close> arithmetic.
  The remainder by zero is undefined in C++ and is an error value here.
\<close>

definition PadPointer :: "addr \<Rightarrow> size_t \<Rightarrow> error + size_t" where
  "PadPointer p align =
     (if align = 0 then Inl ModuloByZero else Inr ((align - p) mod align))"

text \<open>
  \<open>MemoryPool::AllocateNewBlock\<close>. The argument \<open>new_block\<close> is the address that
  \<open>operator new(block_size)\<close> returns to this call.
\<close>

definition AllocateNewBlock ::
  "addr \<Rightarrow> MemoryPool \<times> machine \<Rightarrow> error + MemoryPool \<times> machine" where
  "AllocateNewBlock new_block pm =
     (case pm of (p, m) \<Rightarrow>
        let m1 = m\<lparr>mem := (mem m)(new_block := first_block p),
                   trace := trace m @ [OperatorNew (block_size p) new_block]\<rparr>;
            p1 = p\<lparr>first_block := new_block\<rparr>;
            body = new_block + sizeof_Slot
        in case PadPointer body (slot_size p1) of
             Inl e \<Rightarrow> Inl e
           | Inr padding_size \<Rightarrow>
               let p2 = p1\<lparr>current_slot := body + padding_size\<rparr>;
                   block_end = new_block + block_size p2
               in Inr (p2\<lparr>last_slot := block_end - slot_size p2\<rparr>, m1))"

text \<open>
  \<open>MemoryPool::Allocate\<close>. The locks and the second test of \<open>free_list\<close> under the lock
  have no effect in a single thread and are left out.
\<close>

definition Allocate ::
  "addr \<Rightarrow> MemoryPool \<times> machine \<Rightarrow> error + addr \<times> MemoryPool \<times> machine" where
  "Allocate new_block pm =
     (case pm of (p, m) \<Rightarrow>
        if free_list p \<noteq> 0 then
          let temp = free_list p
          in Inr (temp, p\<lparr>free_list := mem m (free_list p)\<rparr>, m)
        else
          case (if current_slot p = 0 \<or> current_slot p > last_slot p
                then AllocateNewBlock new_block (p, m) else Inr (p, m)) of
            Inl e \<Rightarrow> Inl e
          | Inr (p1, m1) \<Rightarrow>
              let temp = current_slot p1
              in Inr (temp, p1\<lparr>current_slot := current_slot p1 + slot_size p1\<rparr>, m1))"

definition Deallocate :: "addr \<Rightarrow> MemoryPool \<times> machine \<Rightarrow> MemoryPool \<times> machine" where
  "Deallocate ptr pm =
     (case pm of (p, m) \<Rightarrow>
        if ptr \<noteq> 0 then
          (p\<lparr>free_list := ptr\<rparr>, m\<lparr>mem := (mem m)(ptr := free_list p)\<rparr>)
        else (p, m))"

subsection \<open>HashBucket\<close>

text \<open>
  The function-local \<open>static MemoryPool pools[MEMORY_POOL_NUM]\<close> of \<open>getMemoryPool\<close> is the
  one field of the model's \<open>HashBucket\<close>; every element is built by the default
  constructor.
\<close>

record HashBucket =
  pools :: "nat \<Rightarrow> MemoryPool"

definition HashBucket_new :: HashBucket where
  "HashBucket_new = \<lparr>pools = (\<lambda>_. MemoryPool_new 4096)\<rparr>"

definition getMemoryPool :: "cint \<Rightarrow> HashBucket \<Rightarrow> error + MemoryPool" where
  "getMemoryPool index hb =
     (if index <s 0 \<or> MEMORY_POOL_NUM \<le>s index then Inl OutOfRange
      else Inr (pools hb (unat index)))"

text \<open>
  The index expression \<open>((size + 7) / SLOT_BASE_SIZE) - 1\<close> of \<open>useMemory\<close> and
  \<open>freeMemory\<close> is computed in \<open>size_t\<close> and narrowed to the \<open>int\<close> parameter of
  \<open>getMemoryPool\<close>.
\<close>

definition pool_index :: "size_t \<Rightarrow> cint" where
  "pool_index sz = ucast (((sz + 7) div (SLOT_BASE_SIZE :: size_t)) - 1)"

text \<open>
  \<open>HashBucket::useMemory\<close>; \<open>new_ret\<close> is the address \<open>operator new\<close> returns if this call
  reaches it (directly, or through \<open>AllocateNewBlock\<close>).
\<close>

definition useMemory ::
  "addr \<Rightarrow> size_t \<Rightarrow> HashBucket \<times> machine \<Rightarrow> error + addr \<times> HashBucket \<times> machine" where
  "useMemory new_ret sz hm =
     (case hm of (hb, m) \<Rightarrow>
        if sz \<le> 0 then Inr (0, hb, m)
        else if sz > MAX_SLOT_SIZE then
          Inr (new_ret, hb, m\<lparr>trace := trace m @ [OperatorNew sz new_ret]\<rparr>)
        else
          case getMemoryPool (pool_index sz) hb of
            Inl e \<Rightarrow> Inl e
          | Inr p \<Rightarrow>
              (case Allocate new_ret (p, m) of
                 Inl e \<Rightarrow> Inl e
               | Inr (r, p', m') \<Rightarrow>
                   Inr (r, hb\<lparr>pools := (pools hb)(unat (pool_index sz) := p')\<rparr>, m')))"

definition freeMemory ::
  "addr \<Rightarrow> size_t \<Rightarrow> HashBucket \<times> machine \<Rightarrow> error + HashBucket \<times> machine" where
  "freeMemory ptr sz hm =
     (case hm of (hb, m) \<Rightarrow>
        if ptr = 0 then Inr (hb, m)
        else if sz > MAX_SLOT_SIZE then
          Inr (hb, m\<lparr>trace := trace m @ [OperatorDelete ptr]\<rparr>)
        else
          case getMemoryPool (pool_index sz) hb of
            Inl e \<Rightarrow> Inl e
          | Inr p \<Rightarrow>
              (case Deallocate ptr (p, m) of
                 (p', m') \<Rightarrow>
                   Inr (hb\<lparr>pools := (pools hb)(unat (pool_index sz) := p')\<rparr>, m')))"

text \<open>
  \<open>HashBucket::initMemoryPool\<close>: the loop \<open>for (int i = 0; i < MEMORY_POOL_NUM; i++)\<close>
  from the value of \<open>i\<close> on; \<open>(i + 1) * SLOT_BASE_SIZE\<close> is an \<open>int\<close>, widened to the
  \<open>size_t\<close> parameter of \<open>init\<close>.
\<close>

function initMemoryPool_from :: "cint \<Rightarrow> HashBucket \<Rightarrow> error + HashBucket" where
  "initMemoryPool_from i hb =
     (if i <s MEMORY_POOL_NUM then
        case getMemoryPool i hb of
          Inl e \<Rightarrow> Inl e
        | Inr p \<Rightarrow>
            (case init (scast ((i + 1) * (SLOT_BASE_SIZE :: cint))) p of
               Inl e \<Rightarrow> Inl e
             | Inr p' \<Rightarrow> initMemoryPool_from (i + 1) (hb\<lparr>pools := (pools hb)(unat i := p')\<rparr>))
      else Inr hb)"
  by pat_completeness auto
termination
proof (relation "measure (\<lambda>(i, hb). nat (sint MEMORY_POOL_NUM - sint i))")
  show "wf (measure (\<lambda>(i, hb). nat (sint MEMORY_POOL_NUM - sint i)))"
    by simp
next
  fix i :: cint and hb :: HashBucket and x2 x2a
  assume lt: "i <s MEMORY_POOL_NUM"
  have b: "sint i < 64"
    using lt by (simp add: word_sless_alt MEMORY_POOL_NUM_def)
  have "- (2 ^ 31) \<le> sint i"
    using sint_ge [of i] by simp
  then have "sint (i + 1) = sint i + 1"
    using b by (simp add: sint_word_ariths signed_take_bit_int_eq_self)
  then show "((i + 1, hb\<lparr>pools := (pools hb)(unat i := x2a)\<rparr>), i, hb)
      \<in> measure (\<lambda>(i, hb). nat (sint MEMORY_POOL_NUM - sint i))"
    using b by (simp add: MEMORY_POOL_NUM_def)
qed

definition initMemoryPool :: "HashBucket \<Rightarrow> error + HashBucket" where
  "initMemoryPool hb = initMemoryPool_from 0 hb"

section \<open>Generation 1, first draft: src/ZPmemoryPool.cc\<close>

text \<open>
  The class of \<open>include/ZPmemoryPool.h\<close> has the fields of \<open>MemoryPool\<close> above and the same
  \<open>init\<close>. Its \<open>AllocateNewBlock\<close> and \<open>Allocate\<close> differ. The file calls \<open>PadPointer\<close>
  without defining it and discards its value; the call is kept with version1's definition.
\<close>

definition AllocateNewBlock_src ::
  "addr \<Rightarrow> MemoryPool \<times> machine \<Rightarrow> error + MemoryPool \<times> machine" where
  "AllocateNewBlock_src new_block pm =
     (case pm of (p, m) \<Rightarrow>
        let m1 = m\<lparr>mem := (mem m)(new_block := first_block p),
                   trace := trace m @ [OperatorNew (block_size p) new_block]\<rparr>;
            p1 = p\<lparr>first_block := new_block\<rparr>;
            body = new_block + sizeof_Slot
        in case PadPointer body (slot_size p1) of
             Inl e \<Rightarrow> Inl e
           | Inr padding_size \<Rightarrow>
               let p2 = p1\<lparr>current_slot := new_block + block_size p1 - slot_size p1 + 1\<rparr>
               in Inr (p2\<lparr>free_list := 0\<rparr>, m1))"

text \<open>
  \<open>current_slot_ += slot_size_ / sizeof(Slot)\<close> is arithmetic on a \<open>Slot*\<close>: the address
  moves by that many times \<open>sizeof(Slot)\<close> bytes.
\<close>

definition Allocate_src ::
  "addr \<Rightarrow> MemoryPool \<times> machine \<Rightarrow> error + addr \<times> MemoryPool \<times> machine" where
  "Allocate_src new_block pm =
     (case pm of (p, m) \<Rightarrow>
        if free_list p \<noteq> 0 then
          let temp = free_list p
          in Inr (temp, p\<lparr>free_list := mem m (free_list p)\<rparr>, m)
        else
          case (if current_slot p \<ge> last_slot p
                then AllocateNewBlock_src new_block (p, m) else Inr (p, m)) of
            Inl e \<Rightarrow> Inl e
          | Inr (p1, m1) \<Rightarrow>
              let temp = current_slot p1
              in Inr (temp,
                      p1\<lparr>current_slot :=
                            current_slot p1 + (slot_size p1 div sizeof_Slot) * sizeof_Slot\<rparr>,
                      m1))"

section \<open>Generation 2: version2/include/Common.h and version2/src/ThreadCache.cc\<close>

definition ALIGNMENT :: size_t where
  "ALIGNMENT = 8"

definition MAX_BYTES :: size_t where
  "MAX_BYTES = 256"

definition FREE_LIST_SIZE :: size_t where
  "FREE_LIST_SIZE = MAX_BYTES div ALIGNMENT"

definition roundUp :: "size_t \<Rightarrow> size_t" where
  "roundUp bytes = (bytes + ALIGNMENT - 1) AND NOT (ALIGNMENT - 1)"

definition getIndex :: "size_t \<Rightarrow> size_t" where
  "getIndex bytes0 =
     (let bytes = max bytes0 ALIGNMENT
      in (bytes + ALIGNMENT - 1) div ALIGNMENT - 1)"

text \<open>
  The two \<open>std::array\<close> members of \<open>ThreadCache\<close>, indexed by the class index. The one
  instance per thread is a \<open>static thread_local\<close> object, so both arrays start zeroed.
\<close>

record ThreadCache =
  tc_free_list :: "nat \<Rightarrow> addr"
  tc_free_list_size :: "nat \<Rightarrow> size_t"

definition ThreadCache_new :: ThreadCache where
  "ThreadCache_new = \<lparr>tc_free_list = (\<lambda>_. 0), tc_free_list_size = (\<lambda>_. 0)\<rparr>"

text \<open>
  \<open>CentralCache\<close> is not part of the sources. What a call of \<open>ThreadCache::allocate\<close> gets
  from outside is an argument of the model: the pointer \<open>malloc\<close> returns, the pointer
  \<open>CentralCache::fetchRange\<close> returns, and what that call does to the link words of
  memory (it links the slots it hands out).
\<close>

record env =
  malloc_ret :: addr
  fetchRange_ret :: addr
  fetchRange_mem :: "(addr \<Rightarrow> addr) \<Rightarrow> addr \<Rightarrow> addr"

text \<open>
  The counting loop of \<open>fetchFromCentralCache\<close>,
  \<open>while (current != nullptr) { batch_num++; current = *(void**)current; }\<close>.
  It does not return on a cyclic chain: \<open>None\<close>.
\<close>

partial_function (option) count_batch :: "(addr \<Rightarrow> addr) \<Rightarrow> addr \<Rightarrow> size_t \<Rightarrow> size_t option" where
  "count_batch h current batch_num =
     (if current \<noteq> 0 then count_batch h (h current) (batch_num + 1)
      else Some batch_num)"

definition fetchFromCentralCache ::
  "env \<Rightarrow> size_t \<Rightarrow> ThreadCache \<times> machine \<Rightarrow> (addr \<times> ThreadCache \<times> machine) option" where
  "fetchFromCentralCache e index tm =
     (case tm of (t, m) \<Rightarrow>
        let start = fetchRange_ret e;
            m1 = m\<lparr>mem := fetchRange_mem e (mem m),
                   trace := trace m @ [FetchRange index start]\<rparr>
        in if start = 0 then Some (0, t, m1)
           else
             let result = start;
                 t1 = t\<lparr>tc_free_list := (tc_free_list t)(unat index := mem m1 start)\<rparr>
             in case count_batch (mem m1) start 0 of
                  None \<Rightarrow> None
                | Some batch_num \<Rightarrow>
                    Some (result,
                          t1\<lparr>tc_free_list_size := (tc_free_list_size t1)
                                (unat index := tc_free_list_size t1 (unat index) + batch_num)\<rparr>,
                          m1))"

text \<open>
  \<open>ThreadCache::allocate\<close>, statement by statement: after the \<open>if\<close> that pops the local
  list there is no \<open>return\<close>, and control reaches \<open>return fetchFromCentralCache(index)\<close>
  on both paths.
\<close>

definition allocate ::
  "env \<Rightarrow> size_t \<Rightarrow> ThreadCache \<times> machine \<Rightarrow> (addr \<times> ThreadCache \<times> machine) option" where
  "allocate e size0 tm =
     (case tm of (t, m) \<Rightarrow>
        let sz = (if size0 = 0 then ALIGNMENT else size0)
        in if sz > MAX_BYTES then
             Some (malloc_ret e, t, m\<lparr>trace := trace m @ [Malloc sz (malloc_ret e)]\<rparr>)
           else
             let index = getIndex sz;
                 t1 = t\<lparr>tc_free_list_size := (tc_free_list_size t)
                         (unat index := tc_free_list_size t (unat index) - 1)\<rparr>;
                 ptr = tc_free_list t1 (unat index);
                 t2 = (if ptr \<noteq> 0
                       then t1\<lparr>tc_free_list := (tc_free_list t1)(unat index := mem m ptr)\<rparr>
                       else t1)
             in fetchFromCentralCache e index (t2, m))"

definition sholdReturnToCentralCache :: "size_t \<Rightarrow> ThreadCache \<Rightarrow> bool" where
  "sholdReturnToCentralCache index t =
     (let threshold = (256 :: size_t) in tc_free_list_size t (unat index) > threshold)"

text \<open>
  The \<open>for\<close> loop of \<open>returnTocentralCache\<close> from the value of \<open>i\<close> on. It yields the final
  \<open>split_node\<close> and \<open>return_num\<close>.
\<close>

function split_walk ::
  "(addr \<Rightarrow> addr) \<Rightarrow> size_t \<Rightarrow> size_t \<Rightarrow> size_t \<Rightarrow> addr \<Rightarrow> size_t \<Rightarrow> addr \<times> size_t" where
  "split_walk h batch_num keep_num i split_node return_num =
     (if i < keep_num - 1 then
        let split_node' = h split_node
        in if split_node' = 0 then (split_node', batch_num - (i + 1))
           else split_walk h batch_num keep_num (i + 1) split_node' return_num
      else (split_node, return_num))"
  by pat_completeness auto
termination
proof (relation "measure (\<lambda>(h, batch_num, keep_num, i, split_node, return_num).
                            unat (keep_num - 1) - unat i)")
  show "wf (measure (\<lambda>(h, batch_num, keep_num, i, split_node, return_num).
                       unat (keep_num - 1) - unat i))"
    by simp
next
  fix h :: "addr \<Rightarrow> addr" and batch_num keep_num i :: size_t
    and split_node :: addr and return_num :: size_t and x :: addr
  assume lt: "i < keep_num - 1"
  then have lt': "unat i < unat (keep_num - 1)"
    by (simp add: word_less_nat_alt)
  moreover have "unat (keep_num - 1) < 2 ^ 64"
    using unsigned_less [of "keep_num - 1"] by simp
  then have "unat (i + 1) = unat i + 1"
    using lt' by (simp add: unat_word_ariths)
  ultimately show "((h, batch_num, keep_num, i + 1, x, return_num),
        h, batch_num, keep_num, i, split_node, return_num)
      \<in> measure (\<lambda>(h, batch_num, keep_num, i, split_node, return_num).
                    unat (keep_num - 1) - unat i)"
    by simp
qed

text \<open>\<open>ThreadCache::returnTocentralCache\<close>.\<close>

definition returnTocentralCache ::
  "addr \<Rightarrow> size_t \<Rightarrow> ThreadCache \<times> machine \<Rightarrow> ThreadCache \<times> machine" where
  "returnTocentralCache start sz tm =
     (case tm of (t, m) \<Rightarrow>
        let index = getIndex sz;
            aligned_size = roundUp sz;
            batch_num = tc_free_list_size t (unat index)
        in if batch_num \<le> 1 then (t, m)
           else
             let keep_num = max (batch_num div 4) (1 :: size_t);
                 return_num0 = batch_num - keep_num
             in case split_walk (mem m) batch_num keep_num 0 start return_num0 of
                  (split_node, return_num) \<Rightarrow>
                    if split_node \<noteq> 0 then
                      let next_node = mem m split_node;
                          m1 = m\<lparr>mem := (mem m)(split_node := 0)\<rparr>;
                          t1 = t\<lparr>tc_free_list := (tc_free_list t)(unat index := start)\<rparr>;
                          t2 = t1\<lparr>tc_free_list_size :=
                                     (tc_free_list_size t1)(unat index := keep_num)\<rparr>
                      in if return_num > 0 \<and> next_node \<noteq> 0 then
                           (t2, m1\<lparr>trace := trace m1 @
                                     [RerurnRange next_node (return_num * aligned_size) index]\<rparr>)
                         else (t2, m1)
                    else (t, m))"

text \<open>
  \<open>ThreadCache::deallocate\<close>. The store \<open>*(void**)ptr = free_list_[index]\<close> through a null
  \<open>ptr\<close> is undefined behaviour: \<open>None\<close>.
\<close>

definition deallocate ::
  "addr \<Rightarrow> size_t \<Rightarrow> ThreadCache \<times> machine \<Rightarrow> (ThreadCache \<times> machine) option" where
  "deallocate ptr sz tm =
     (case tm of (t, m) \<Rightarrow>
        if sz > MAX_BYTES then Some (t, m\<lparr>trace := trace m @ [Free ptr]\<rparr>)
        else if ptr = 0 then None
        else
          let index = getIndex sz;
              m1 = m\<lparr>mem := (mem m)(ptr := tc_free_list t (unat index))\<rparr>;
              t1 = t\<lparr>tc_free_list := (tc_free_list t)(unat index := ptr)\<rparr>;
              t2 = t1\<lparr>tc_free_list_size := (tc_free_list_size t1)
                        (unat index := tc_free_list_size t1 (unat index) + 1)\<rparr>
          in if sholdReturnToCentralCache index t2
             then Some (returnTocentralCache (tc_free_list t2 (unat index)) sz (t2, m1))
             else Some (t2, m1))"

section \<open>States, chains and call sequences used in the statements\<close>

text \<open>A machine with zeroed link words and an empty trace.\<close>

definition machine_new :: machine where
  "machine_new = \<lparr>mem = (\<lambda>_. 0), trace = []\<rparr>"

text \<open>
  \<open>chain h p xs\<close>: following the link words \<open>h\<close> from the pointer \<open>p\<close> visits exactly the
  slots \<open>xs\<close>, in this order, and then reaches the null pointer.
\<close>

fun chain :: "(addr \<Rightarrow> addr) \<Rightarrow> addr \<Rightarrow> addr list \<Rightarrow> bool" where
  "chain h p [] = (p = 0)"
| "chain h p (x # xs) = (p = x \<and> x \<noteq> 0 \<and> chain h (h x) xs)"

text \<open>
  \<open>slots base k\<close> are \<open>k\<close> slots of eight bytes from the address \<open>base\<close> on, and
  \<open>linked base k h\<close> is the memory \<open>h\<close> after each of them has been made to point to the
  next one and the last one to hold the null pointer.
\<close>

definition slots :: "addr \<Rightarrow> nat \<Rightarrow> addr list" where
  "slots base k = map (\<lambda>j. base + 8 * of_nat j) [0..<k]"

definition linked :: "addr \<Rightarrow> nat \<Rightarrow> (addr \<Rightarrow> addr) \<Rightarrow> addr \<Rightarrow> addr" where
  "linked base k h a =
     (if base \<le> a \<and> a < base + 8 * of_nat k \<and> (a - base) mod 8 = 0
      then (if a + 8 < base + 8 * of_nat k then a + 8 else 0)
      else h a)"

text \<open>
  The reply of a \<open>CentralCache\<close> that hands out the \<open>k\<close> slots from \<open>base\<close> on, and the
  reply of one that has nothing to give.
\<close>

definition central_gives :: "addr \<Rightarrow> nat \<Rightarrow> env" where
  "central_gives base k =
     \<lparr>malloc_ret = 0, fetchRange_ret = base, fetchRange_mem = linked base k\<rparr>"

definition central_empty :: env where
  "central_empty = \<lparr>malloc_ret = 0, fetchRange_ret = 0, fetchRange_mem = id\<rparr>"

text \<open>A sequence of calls on one \<open>ThreadCache\<close>, and what can be observed of a state.\<close>

datatype tc_call = CallAllocate env size_t | CallDeallocate addr size_t

fun run :: "tc_call list \<Rightarrow> ThreadCache \<times> machine \<Rightarrow> (ThreadCache \<times> machine) option" where
  "run [] tm = Some tm"
| "run (CallAllocate e sz # cs) tm =
     (case allocate e sz tm of None \<Rightarrow> None | Some (r, tm') \<Rightarrow> run cs tm')"
| "run (CallDeallocate ptr sz # cs) tm =
     (case deallocate ptr sz tm of None \<Rightarrow> None | Some tm' \<Rightarrow> run cs tm')"

definition class_head :: "nat \<Rightarrow> ThreadCache \<times> machine \<Rightarrow> addr" where
  "class_head k tm = tc_free_list (fst tm) k"

definition class_count :: "nat \<Rightarrow> ThreadCache \<times> machine \<Rightarrow> size_t" where
  "class_count k tm = tc_free_list_size (fst tm) k"

definition calls :: "ThreadCache \<times> machine \<Rightarrow> call list" where
  "calls tm = trace (snd tm)"

definition link_at :: "addr \<Rightarrow> ThreadCache \<times> machine \<Rightarrow> addr" where
  "link_at a tm = mem (snd tm) a"

section \<open>Size-class arithmetic\<close>

lemma unat_getIndex:
  assumes "s \<le> MAX_BYTES"
  shows "unat (getIndex s) = (max (unat s) 8 + 7) div 8 - 1"
proof -
  have b: "unat s \<le> 256"
    using assms by (simp add: MAX_BYTES_def word_le_nat_alt)
  have m: "unat (max s 8) = max (unat s) 8"
    by (simp add: max_def word_le_nat_alt)
  have a: "unat (max s 8 + 8 - 1) = max (unat s) 8 + 7"
    using b m by (simp add: unat_word_ariths)
  have d: "unat ((max s 8 + 8 - 1) div 8) = (max (unat s) 8 + 7) div 8"
    using a by (simp add: unat_div)
  have "1 \<le> (max s 8 + 8 - 1) div 8"
    using d by (simp add: word_le_nat_alt)
  then have "unat ((max s 8 + 8 - 1) div 8 - 1) = (max (unat s) 8 + 7) div 8 - 1"
    using d by (simp add: unat_sub)
  then show ?thesis
    by (simp add: getIndex_def ALIGNMENT_def Let_def)
qed

lemma unat_pool_index_word:
  assumes "1 \<le> s" "s \<le> MAX_SLOT_SIZE"
  shows "unat (((s + 7) div (SLOT_BASE_SIZE :: size_t)) - 1) = (unat s + 7) div 8 - 1"
proof -
  have b: "unat s \<le> 512" "1 \<le> unat s"
    using assms by (simp_all add: MAX_SLOT_SIZE_def word_le_nat_alt)
  have a: "unat (s + 7) = unat s + 7"
    using b by (simp add: unat_word_ariths)
  have d: "unat ((s + 7) div 8) = (unat s + 7) div 8"
    using a by (simp add: unat_div)
  have "1 \<le> (s + 7) div 8"
    using d b by (simp add: word_le_nat_alt)
  then have "unat ((s + 7) div 8 - 1) = (unat s + 7) div 8 - 1"
    using d by (simp add: unat_sub)
  then show ?thesis
    by (simp add: SLOT_BASE_SIZE_def)
qed

lemma ceiling_eighths: "\<lceil>real n / 8\<rceil> = int ((n + 7) div 8)"
  by linarith

lemma pool_index_small:
  assumes "1 \<le> s" "s \<le> MAX_SLOT_SIZE"
  shows "sint (pool_index s) = int ((unat s + 7) div 8 - 1)"
    and "unat (pool_index s) = (unat s + 7) div 8 - 1"
    and "(unat s + 7) div 8 - 1 < 64"
proof -
  let ?w = "((s + 7) div (SLOT_BASE_SIZE :: size_t)) - 1"
  have b: "unat s \<le> 512"
    using assms by (simp add: MAX_SLOT_SIZE_def word_le_nat_alt)
  have u: "unat ?w = (unat s + 7) div 8 - 1"
    by (rule unat_pool_index_word [OF assms])
  show lt: "(unat s + 7) div 8 - 1 < 64"
    using b by simp
  have "unat (ucast ?w :: cint) = unat ?w"
    using u lt by (simp add: unsigned_ucast_eq take_bit_nat_eq_self)
  then show un: "unat (pool_index s) = (unat s + 7) div 8 - 1"
    using u by (simp add: pool_index_def)
  have "sint (pool_index s) = uint (pool_index s)"
  proof -
    have "uint (pool_index s) < 2 ^ 31"
      using un lt by (simp add: uint_nat)
    moreover have "(- (2 ^ 31) :: int) \<le> uint (pool_index s)"
      by (rule order_trans [OF _ uint_ge_0]) simp
    ultimately show ?thesis
      by (simp add: sint_uint signed_take_bit_int_eq_self)
  qed
  then show "sint (pool_index s) = int ((unat s + 7) div 8 - 1)"
    using un by (simp add: uint_nat)
qed

text \<open>The two index expressions as a ceiling, and their ranges.\<close>

lemma index_ceiling:
  "(1 \<le> s \<and> s \<le> MAX_BYTES \<longrightarrow>
      int (unat (getIndex s)) = \<lceil>real (unat s) / real (unat ALIGNMENT)\<rceil> - 1 \<and>
      unat (getIndex s) < unat FREE_LIST_SIZE) \<and>
   (1 \<le> s \<and> s \<le> MAX_SLOT_SIZE \<longrightarrow>
      sint (pool_index s) = \<lceil>real (unat s) / real (unat (SLOT_BASE_SIZE :: size_t))\<rceil> - 1 \<and>
      0 \<le> sint (pool_index s) \<and> sint (pool_index s) < sint MEMORY_POOL_NUM) \<and>
   unat FREE_LIST_SIZE = 32 \<and> sint MEMORY_POOL_NUM = 64"
proof (intro conjI impI)
  assume a: "1 \<le> s \<and> s \<le> MAX_BYTES"
  then have b: "1 \<le> unat s" "unat s \<le> 256"
    by (simp_all add: MAX_BYTES_def word_le_nat_alt)
  have u: "unat (getIndex s) = (max (unat s) 8 + 7) div 8 - 1"
    using a by (simp add: unat_getIndex)
  have e: "(max (unat s) 8 + 7) div 8 - 1 = (unat s + 7) div 8 - 1"
    using b by (simp add: max_def) 
  have c: "1 \<le> (unat s + 7) div 8"
    using b by simp
  have al: "real (unat ALIGNMENT) = 8"
    by (simp add: ALIGNMENT_def)
  have ce: "\<lceil>real (unat s) / 8\<rceil> = int ((unat s + 7) div 8)"
    by (rule ceiling_eighths)
  have "int (unat (getIndex s)) = int ((unat s + 7) div 8) - 1"
    using c by (simp only: u e of_nat_diff of_nat_1)
  then show "int (unat (getIndex s)) = \<lceil>real (unat s) / real (unat ALIGNMENT)\<rceil> - 1"
    by (simp only: al ce)
  show "unat (getIndex s) < unat FREE_LIST_SIZE"
    using u e b by (simp add: FREE_LIST_SIZE_def MAX_BYTES_def ALIGNMENT_def)
next
  assume a: "1 \<le> s \<and> s \<le> MAX_SLOT_SIZE"
  then have b: "1 \<le> unat s"
    by (simp add: word_le_nat_alt)
  have c: "1 \<le> (unat s + 7) div 8"
    using b by simp
  have p: "sint (pool_index s) = int ((unat s + 7) div 8 - 1)"
    using a by (simp add: pool_index_small(1))
  have al: "real (unat (SLOT_BASE_SIZE :: size_t)) = 8"
    by (simp add: SLOT_BASE_SIZE_def)
  have ce: "\<lceil>real (unat s) / 8\<rceil> = int ((unat s + 7) div 8)"
    by (rule ceiling_eighths)
  have "sint (pool_index s) = int ((unat s + 7) div 8) - 1"
    using c by (simp only: p of_nat_diff of_nat_1)
  then show "sint (pool_index s) = \<lceil>real (unat s) / real (unat (SLOT_BASE_SIZE :: size_t))\<rceil> - 1"
    by (simp only: al ce)
  show "0 \<le> sint (pool_index s)"
    using p by simp
  show "sint (pool_index s) < sint MEMORY_POOL_NUM"
    using p pool_index_small(3) [of s] a by (simp add: MEMORY_POOL_NUM_def)
next
  show "unat FREE_LIST_SIZE = 32"
    by (simp add: FREE_LIST_SIZE_def MAX_BYTES_def ALIGNMENT_def)
  show "sint MEMORY_POOL_NUM = 64"
    by (simp add: MEMORY_POOL_NUM_def)
qed

section \<open>The bucket front\<close>

lemma Allocate_not_OutOfRange: "Allocate nb pm \<noteq> Inl OutOfRange"
  by (auto simp: Allocate_def AllocateNewBlock_def PadPointer_def Let_def
      split: prod.splits sum.splits if_splits)

lemma getMemoryPool_pool_index:
  assumes "0 < s" "s \<le> MAX_SLOT_SIZE"
  shows "getMemoryPool (pool_index s) hb = Inr (pools hb ((unat s + 7) div 8 - 1))"
proof -
  have a: "1 \<le> s"
    using assms(1) by (simp add: word_le_nat_alt word_less_nat_alt)
  have "sint (pool_index s) = int ((unat s + 7) div 8 - 1)"
    and u: "unat (pool_index s) = (unat s + 7) div 8 - 1"
    and "(unat s + 7) div 8 - 1 < 64"
    using pool_index_small [OF a assms(2)] by simp_all
  then have "\<not> (pool_index s <s 0 \<or> MEMORY_POOL_NUM \<le>s pool_index s)"
    by (simp add: word_sless_alt word_sle_eq MEMORY_POOL_NUM_def)
  then show ?thesis
    by (simp add: getMemoryPool_def u)
qed

lemma useMemory_routes:
  assumes "1 \<le> s" and "s \<le> MAX_SLOT_SIZE"
  shows "useMemory new_ret s (hb, m) =
     (case Allocate new_ret
             (pools hb (nat (\<lceil>real (unat s) / real (unat (SLOT_BASE_SIZE :: size_t))\<rceil> - 1)), m) of
        Inl e \<Rightarrow> Inl e
      | Inr (r, p', m') \<Rightarrow>
          Inr (r, hb\<lparr>pools := (pools hb)
                 (nat (\<lceil>real (unat s) / real (unat (SLOT_BASE_SIZE :: size_t))\<rceil> - 1) := p')\<rparr>, m'))"
proof -
  have pos: "0 < s"
    using assms(1) by (simp add: word_le_nat_alt word_less_nat_alt)
  have al: "real (unat (SLOT_BASE_SIZE :: size_t)) = 8"
    by (simp add: SLOT_BASE_SIZE_def)
  have ce: "\<lceil>real (unat s) / 8\<rceil> = int ((unat s + 7) div 8)"
    by (rule ceiling_eighths)
  have "nat (int ((unat s + 7) div 8) - 1) = (unat s + 7) div 8 - 1"
    by simp
  then have k: "nat (\<lceil>real (unat s) / real (unat (SLOT_BASE_SIZE :: size_t))\<rceil> - 1) =
                  (unat s + 7) div 8 - 1"
    by (simp only: al ce)
  have u: "unat (pool_index s) = (unat s + 7) div 8 - 1"
    using pool_index_small(2) [OF assms] .
  have g: "getMemoryPool (pool_index s) hb = Inr (pools hb ((unat s + 7) div 8 - 1))"
    using pos assms(2) by (simp add: getMemoryPool_pool_index)
  have n0: "\<not> s \<le> 0"
    using pos by (simp add: word_le_nat_alt word_less_nat_alt)
  have nb: "\<not> MAX_SLOT_SIZE < s"
    using assms(2) by (simp add: not_less)
  have "useMemory new_ret s (hb, m) =
     (case Allocate new_ret (pools hb ((unat s + 7) div 8 - 1), m) of
        Inl e \<Rightarrow> Inl e
      | Inr (r, p', m') \<Rightarrow>
          Inr (r, hb\<lparr>pools := (pools hb)((unat s + 7) div 8 - 1 := p')\<rparr>, m'))"
    using n0 nb by (auto simp: useMemory_def g u split: sum.splits)
  then show ?thesis
    by (simp only: k)
qed

text \<open>
  C6. For a size \<open>s\<close> from 1 up to the pooling ceiling, \<open>SizeClass::getIndex(s)\<close> and the
  index expression of \<open>HashBucket::useMemory\<close> both equal \<open>ceil(s / 8) - 1\<close>, and the index
  lies in \<open>[0, 32)\<close> for the thread cache (\<open>MAX_BYTES = 256\<close>) and in \<open>[0, 64)\<close> for the
  bucket front (\<open>MAX_SLOT_SIZE = 512\<close>). \<open>useMemory(s)\<close> itself is \<open>Allocate\<close> on the pool
  with that index, and the pool it writes back is the one with that index.
\<close>

theorem size_class_index_ceiling:
  "(1 \<le> s \<and> s \<le> MAX_BYTES \<longrightarrow>
      int (unat (getIndex s)) = \<lceil>real (unat s) / real (unat ALIGNMENT)\<rceil> - 1 \<and>
      unat (getIndex s) < unat FREE_LIST_SIZE) \<and>
   (1 \<le> s \<and> s \<le> MAX_SLOT_SIZE \<longrightarrow>
      sint (pool_index s) = \<lceil>real (unat s) / real (unat (SLOT_BASE_SIZE :: size_t))\<rceil> - 1 \<and>
      0 \<le> sint (pool_index s) \<and> sint (pool_index s) < sint MEMORY_POOL_NUM \<and>
      useMemory new_ret s (hb, m) =
        (case Allocate new_ret
                (pools hb (nat (\<lceil>real (unat s) / real (unat (SLOT_BASE_SIZE :: size_t))\<rceil> - 1)),
                 m) of
           Inl e \<Rightarrow> Inl e
         | Inr (r, p', m') \<Rightarrow>
             Inr (r, hb\<lparr>pools := (pools hb)
                    (nat (\<lceil>real (unat s) / real (unat (SLOT_BASE_SIZE :: size_t))\<rceil> - 1) := p')\<rparr>,
                  m'))) \<and>
   unat FREE_LIST_SIZE = 32 \<and> sint MEMORY_POOL_NUM = 64"
proof (intro conjI impI)
  assume a: "1 \<le> s \<and> s \<le> MAX_SLOT_SIZE"
  show "useMemory new_ret s (hb, m) =
        (case Allocate new_ret
                (pools hb (nat (\<lceil>real (unat s) / real (unat (SLOT_BASE_SIZE :: size_t))\<rceil> - 1)),
                 m) of
           Inl e \<Rightarrow> Inl e
         | Inr (r, p', m') \<Rightarrow>
             Inr (r, hb\<lparr>pools := (pools hb)
                    (nat (\<lceil>real (unat s) / real (unat (SLOT_BASE_SIZE :: size_t))\<rceil> - 1) := p')\<rparr>,
                  m'))"
    using a by (intro useMemory_routes) simp_all
  show "sint (pool_index s) = \<lceil>real (unat s) / real (unat (SLOT_BASE_SIZE :: size_t))\<rceil> - 1"
    using a index_ceiling [of s] by blast
  show "0 \<le> sint (pool_index s)"
    using a index_ceiling [of s] by blast
  show "sint (pool_index s) < sint MEMORY_POOL_NUM"
    using a index_ceiling [of s] by blast
next
  assume a: "1 \<le> s \<and> s \<le> MAX_BYTES"
  show "int (unat (getIndex s)) = \<lceil>real (unat s) / real (unat ALIGNMENT)\<rceil> - 1"
    using a index_ceiling [of s] by blast
  show "unat (getIndex s) < unat FREE_LIST_SIZE"
    using a index_ceiling [of s] by blast
next
  show "unat FREE_LIST_SIZE = 32"
    using index_ceiling [of s] by blast
  show "sint MEMORY_POOL_NUM = 64"
    using index_ceiling [of s] by blast
qed

text \<open>
  The size 100 falls into class 12 on both paths; after \<open>initMemoryPool\<close>, \<open>useMemory(100)\<close>
  is served by pool 12, whose slots have 104 bytes.
\<close>

theorem size_class_index_ceiling_witness:
  "(1 :: size_t) \<le> 100 \<and> (100 :: size_t) \<le> MAX_BYTES \<and> (100 :: size_t) \<le> MAX_SLOT_SIZE \<and>
   getIndex 100 = 12 \<and> pool_index 100 = 12 \<and>
   \<lceil>real (unat (100 :: size_t)) / real (unat ALIGNMENT)\<rceil> - 1 = 12 \<and>
   (\<exists>hb. initMemoryPool HashBucket_new = Inr hb \<and>
      slot_size (pools hb 12) = 104 \<and>
      useMemory 4096 100 (hb, machine_new) =
        (case Allocate 4096 (pools hb 12, machine_new) of
           Inl e \<Rightarrow> Inl e
         | Inr (r, p', m') \<Rightarrow> Inr (r, hb\<lparr>pools := (pools hb)(12 := p')\<rparr>, m')) \<and>
      map_sum id fst (useMemory 4096 100 (hb, machine_new)) = Inr 4176)"
proof -
  have "\<exists>hb. initMemoryPool HashBucket_new = Inr hb \<and>
          pools hb 12 = (MemoryPool_new 4096)\<lparr>slot_size := 104\<rparr>"
    by (simp add: initMemoryPool_def initMemoryPool_from.simps getMemoryPool_def init_def
        MEMORY_POOL_NUM_def SLOT_BASE_SIZE_def HashBucket_new_def MemoryPool_new_def
        word_sless_alt word_sle_eq)
  then obtain hb where i: "initMemoryPool HashBucket_new = Inr hb"
    and p: "pools hb 12 = (MemoryPool_new 4096)\<lparr>slot_size := 104\<rparr>"
    by blast
  have a: "(1 :: size_t) \<le> 100 \<and> (100 :: size_t) \<le> MAX_BYTES \<and> (100 :: size_t) \<le> MAX_SLOT_SIZE"
    by (simp add: MAX_BYTES_def MAX_SLOT_SIZE_def)
  have c: "nat (\<lceil>real (unat (100 :: size_t)) / real (unat (SLOT_BASE_SIZE :: size_t))\<rceil> - 1) = 12"
    by (simp add: SLOT_BASE_SIZE_def)
  have g: "getIndex 100 = 12 \<and> pool_index 100 = 12 \<and>
           \<lceil>real (unat (100 :: size_t)) / real (unat ALIGNMENT)\<rceil> - 1 = 12"
    by (simp add: getIndex_def pool_index_def ALIGNMENT_def SLOT_BASE_SIZE_def)
  have u: "useMemory 4096 100 (hb, machine_new) =
        (case Allocate 4096 (pools hb 12, machine_new) of
           Inl e \<Rightarrow> Inl e
         | Inr (r, p', m') \<Rightarrow> Inr (r, hb\<lparr>pools := (pools hb)(12 := p')\<rparr>, m'))"
    using size_class_index_ceiling [of 100 4096 hb machine_new] a
    by (simp only: c)
  have "map_sum id fst (useMemory 4096 100 (hb, machine_new)) = Inr 4176"
    by (simp add: u p Allocate_def AllocateNewBlock_def PadPointer_def MemoryPool_new_def
        sizeof_Slot_def Let_def)
  then show ?thesis
    using a g i p u by auto
qed

text \<open>
  C10. For a size \<open>s\<close> with \<open>0 < s \<le> MAX_SLOT_SIZE\<close> the index
  \<open>((s + 7) / SLOT_BASE_SIZE) - 1\<close> that \<open>useMemory\<close> and \<open>freeMemory\<close> pass to
  \<open>getMemoryPool\<close> lies in \<open>[0, MEMORY_POOL_NUM)\<close>, so neither entry point can end in the
  out-of-range error.
\<close>

theorem pool_index_never_throws:
  "0 < s \<and> s \<le> MAX_SLOT_SIZE \<Longrightarrow>
     0 \<le> sint (pool_index s) \<and> sint (pool_index s) < sint MEMORY_POOL_NUM \<and>
     getMemoryPool (pool_index s) hb \<noteq> Inl OutOfRange \<and>
     useMemory new_ret s (hb, m) \<noteq> Inl OutOfRange \<and>
     freeMemory ptr s (hb, m) \<noteq> Inl OutOfRange"
proof -
  assume h: "0 < s \<and> s \<le> MAX_SLOT_SIZE"
  then have a: "1 \<le> s"
    by (simp add: word_le_nat_alt word_less_nat_alt)
  have g: "getMemoryPool (pool_index s) hb = Inr (pools hb ((unat s + 7) div 8 - 1))"
    using h by (simp add: getMemoryPool_pool_index)
  have i: "sint (pool_index s) = int ((unat s + 7) div 8 - 1)"
    using a h by (simp add: pool_index_small(1))
  have b: "(unat s + 7) div 8 - 1 < 64"
    using pool_index_small(3) [OF a] h by simp
  have u: "useMemory new_ret s (hb, m) \<noteq> Inl OutOfRange"
    using Allocate_not_OutOfRange [of new_ret "(pools hb ((unat s + 7) div 8 - 1), m)"]
    by (auto simp: useMemory_def g split: sum.splits prod.splits)
  have f: "freeMemory ptr s (hb, m) \<noteq> Inl OutOfRange"
    by (auto simp: freeMemory_def g split: sum.splits prod.splits)
  show ?thesis
    using g i b u f by (simp add: MEMORY_POOL_NUM_def)
qed

text \<open>
  C8. \<open>getMemoryPool(i)\<close> throws the out-of-range error exactly when \<open>i < 0\<close> or
  \<open>i \<ge> MEMORY_POOL_NUM\<close>; otherwise it yields the pool of class \<open>i\<close> (the model's
  \<open>getMemoryPool\<close> has no state to return, it only reads). \<open>init(0)\<close> fails its assertion
  and configures nothing.
\<close>

theorem getMemoryPool_throws_iff:
  "(getMemoryPool i hb = Inl OutOfRange \<longleftrightarrow> sint i < 0 \<or> sint MEMORY_POOL_NUM \<le> sint i) \<and>
   (0 \<le> sint i \<and> sint i < sint MEMORY_POOL_NUM \<longrightarrow>
      getMemoryPool i hb = Inr (pools hb (nat (sint i)))) \<and>
   sint MEMORY_POOL_NUM = 64 \<and>
   init 0 p = Inl AssertionFailed"
proof -
  have "unat i = nat (sint i)" if nn: "0 \<le> sint i"
  proof -
    have "sint i < 2 ^ 32"
      using sint_lt [of i] by simp
    then have "take_bit 32 (sint i) = sint i"
      using nn by (simp add: take_bit_int_eq_self)
    then have "uint i = sint i"
      using uint_sint [of i] by simp
    then show ?thesis
      using nat_uint_eq [of i] by simp
  qed
  then show ?thesis
    by (auto simp: getMemoryPool_def word_sless_alt word_sle_eq init_def MEMORY_POOL_NUM_def)
qed

text \<open>
  C7. For a size above \<open>MAX_SLOT_SIZE\<close>, \<open>useMemory\<close> returns what \<open>operator new\<close>
  returns and \<open>freeMemory\<close> hands a non-null pointer to \<open>operator delete\<close>; the result is
  the given bucket and memory with nothing but the system call added to the trace, so no
  pool is read or changed.
\<close>

theorem oversize_bypasses_pools:
  "MAX_SLOT_SIZE < s \<Longrightarrow>
     useMemory new_ret s (hb, m) =
       Inr (new_ret, hb, m\<lparr>trace := trace m @ [OperatorNew s new_ret]\<rparr>) \<and>
     (ptr \<noteq> 0 \<longrightarrow>
        freeMemory ptr s (hb, m) = Inr (hb, m\<lparr>trace := trace m @ [OperatorDelete ptr]\<rparr>)) \<and>
     (ptr = 0 \<longrightarrow> freeMemory ptr s (hb, m) = Inr (hb, m))"
proof -
  assume h: "MAX_SLOT_SIZE < s"
  then have "\<not> s \<le> 0"
    by (simp add: MAX_SLOT_SIZE_def word_le_nat_alt word_less_nat_alt)
  then show ?thesis
    using h by (simp add: useMemory_def freeMemory_def)
qed

text \<open>
  After \<open>initMemoryPool\<close>, a request of 100 bytes goes to class 12 (slots of 104
  bytes) and is served from a new block.
\<close>

theorem pool_index_never_throws_witness:
  "(0 :: size_t) < 100 \<and> (100 :: size_t) \<le> MAX_SLOT_SIZE \<and>
   (\<exists>hb. initMemoryPool HashBucket_new = Inr hb \<and>
      slot_size (pools hb 12) = 104 \<and>
      getMemoryPool (pool_index 100) hb \<noteq> Inl OutOfRange \<and>
      useMemory 4096 100 (hb, machine_new) \<noteq> Inl OutOfRange \<and>
      map_sum id fst (useMemory 4096 100 (hb, machine_new)) = Inr 4176 \<and>
      freeMemory 4176 100 (hb, machine_new) \<noteq> Inl OutOfRange)"
proof -
  have "\<exists>hb. initMemoryPool HashBucket_new = Inr hb \<and> pools hb 12 = (MemoryPool_new 4096)\<lparr>slot_size := 104\<rparr>"
    by (simp add: initMemoryPool_def initMemoryPool_from.simps getMemoryPool_def init_def
        MEMORY_POOL_NUM_def SLOT_BASE_SIZE_def HashBucket_new_def MemoryPool_new_def
        word_sless_alt word_sle_eq)
  then obtain hb where i: "initMemoryPool HashBucket_new = Inr hb"
    and p: "pools hb 12 = (MemoryPool_new 4096)\<lparr>slot_size := 104\<rparr>"
    by blast
  have a: "(0 :: size_t) < 100 \<and> (100 :: size_t) \<le> MAX_SLOT_SIZE"
    by (simp add: MAX_SLOT_SIZE_def)
  have g: "getMemoryPool (pool_index 100) hb = Inr (pools hb 12)"
    by (simp add: getMemoryPool_def pool_index_def SLOT_BASE_SIZE_def MEMORY_POOL_NUM_def
        word_sless_alt word_sle_eq)
  have u: "map_sum id fst (useMemory 4096 100 (hb, machine_new)) = Inr 4176"
    by (simp add: useMemory_def g p MAX_SLOT_SIZE_def Allocate_def AllocateNewBlock_def
        PadPointer_def MemoryPool_new_def sizeof_Slot_def Let_def)
  show ?thesis
    using pool_index_never_throws [OF a, of hb 4096 machine_new 4176] a i p u
    by auto
qed

text \<open>
  Index 3 is served; 64 and -1 are refused.
\<close>

theorem getMemoryPool_throws_iff_witness:
  "getMemoryPool 3 HashBucket_new = Inr (MemoryPool_new 4096) \<and>
   getMemoryPool 64 HashBucket_new = Inl OutOfRange \<and>
   getMemoryPool (- 1) HashBucket_new = Inl OutOfRange \<and>
   init 0 (MemoryPool_new 4096) = Inl AssertionFailed"
  using getMemoryPool_throws_iff [of 3 HashBucket_new "MemoryPool_new 4096"]
    getMemoryPool_throws_iff [of 64 HashBucket_new "MemoryPool_new 4096"]
    getMemoryPool_throws_iff [of "- 1" HashBucket_new "MemoryPool_new 4096"]
  by (simp add: HashBucket_new_def)

text \<open>
  513 bytes: one \<open>operator new\<close>, then one \<open>operator delete\<close>, pools untouched.
\<close>

theorem oversize_bypasses_pools_witness:
  "MAX_SLOT_SIZE < 513 \<and>
   useMemory 4096 513 (HashBucket_new, machine_new) =
     Inr (4096, HashBucket_new, machine_new\<lparr>trace := [OperatorNew 513 4096]\<rparr>) \<and>
   freeMemory 4096 513 (HashBucket_new, machine_new\<lparr>trace := [OperatorNew 513 4096]\<rparr>) =
     Inr (HashBucket_new, machine_new\<lparr>trace := [OperatorNew 513 4096, OperatorDelete 4096]\<rparr>)"
  using oversize_bypasses_pools [of 513 4096 HashBucket_new machine_new 4096]
    oversize_bypasses_pools [of 513 4096 HashBucket_new
      "machine_new\<lparr>trace := [OperatorNew 513 4096]\<rparr>" 4096]
  by (simp add: MAX_SLOT_SIZE_def machine_new_def)


section \<open>The two drafts of the slot pool\<close>

text \<open>
  C9 says that \<open>MemoryPool::Allocate\<close> of \<open>src/ZPmemoryPool.cc\<close> behaves as the one of
  \<open>version1/ZPmemoryPool.cc\<close>. On a pool of 8-byte slots with 4096-byte blocks, when
  \<open>operator new\<close> returns the block at 4096, version1 returns the slot at 4104, the first
  aligned address after the block's link word. The draft sets its cursor to
  \<open>new_block + block_size_ - slot_size_ + 1\<close> and returns 8185, a slot whose eight bytes
  end one byte after the block.
\<close>

theorem drafts_differ_on_first_allocation:
  "init 8 (MemoryPool_new 4096) = Inr ((MemoryPool_new 4096)\<lparr>slot_size := 8\<rparr>) \<and>
   map_sum id fst (Allocate 4096 ((MemoryPool_new 4096)\<lparr>slot_size := 8\<rparr>, machine_new)) = Inr 4104 \<and>
   map_sum id fst (Allocate_src 4096 ((MemoryPool_new 4096)\<lparr>slot_size := 8\<rparr>, machine_new)) = Inr 8185 \<and>
   (4096 :: addr) + 4096 < 8185 + 8"
  by (simp add: init_def MemoryPool_new_def Allocate_def Allocate_src_def AllocateNewBlock_def
      AllocateNewBlock_src_def PadPointer_def sizeof_Slot_def machine_new_def Let_def)

section \<open>The thread cache\<close>




text \<open>
  C1 says that \<open>allocate\<close> returns the head of a non-empty local list and leaves
  \<open>CentralCache\<close> alone. On a fresh cache, \<open>deallocate(4096, 8)\<close> puts slot 4096 on the
  list of class 0. The next \<open>allocate(8)\<close> unlinks that slot, then calls \<open>fetchRange(0)\<close>
  all the same and returns the fetched slot 8192; slot 4096 is on no list afterwards.
\<close>

theorem allocate_ignores_local_list:
  "map_option (class_head 0) (run [CallDeallocate 4096 8] (ThreadCache_new, machine_new)) = Some 4096 \<and>
   map_option fst (Option.bind (run [CallDeallocate 4096 8] (ThreadCache_new, machine_new))
      (allocate (central_gives 8192 1) 8)) = Some 8192 \<and>
   map_option (calls \<circ> snd) (Option.bind (run [CallDeallocate 4096 8] (ThreadCache_new, machine_new))
      (allocate (central_gives 8192 1) 8)) = Some [FetchRange 0 8192] \<and>
   map_option (class_head 0 \<circ> snd) (Option.bind (run [CallDeallocate 4096 8] (ThreadCache_new, machine_new))
      (allocate (central_gives 8192 1) 8)) = Some 0"
  by (simp add: deallocate_def allocate_def fetchFromCentralCache_def central_gives_def linked_def
      ThreadCache_new_def machine_new_def ALIGNMENT_def MAX_BYTES_def getIndex_def
      sholdReturnToCentralCache_def class_head_def
      count_batch.simps calls_def Let_def)


subsection \<open>Chains in memory\<close>

lemma chain_unique: "chain h p xs \<Longrightarrow> chain h p ys \<Longrightarrow> xs = ys"
proof (induction xs arbitrary: p ys)
  case Nil
  then show ?case by (cases ys) auto
next
  case (Cons x xs)
  then show ?case by (cases ys) auto
qed

lemma chain_nonzero: "chain h p xs \<Longrightarrow> 0 \<notin> set xs"
  by (induction xs arbitrary: p) auto

lemma chain_suffix: "chain h p (as @ b # bs) \<Longrightarrow> chain h (h b) bs"
  by (induction as arbitrary: p) auto

lemma chain_head_fresh:
  assumes "chain h (h a) xs"
  shows "a \<notin> set xs"
proof
  assume "a \<in> set xs"
  then obtain as bs where xs: "xs = as @ a # bs"
    by (auto simp: in_set_conv_decomp)
  then have "chain h (h a) bs"
    using assms chain_suffix by blast
  then have "bs = xs"
    using assms chain_unique by blast
  then show False
    using xs by (auto dest: arg_cong [where f = length])
qed

lemma chain_distinct: "chain h p xs \<Longrightarrow> distinct xs"
  by (induction xs arbitrary: p) (auto dest: chain_head_fresh)

lemma chain_update_other: "a \<notin> set xs \<Longrightarrow> chain (h(a := v)) p xs = chain h p xs"
  by (induction xs arbitrary: p) auto

lemma count_batch_chain:
  "chain h p xs \<Longrightarrow> count_batch h p n = Some (n + of_nat (length xs))"
proof (induction xs arbitrary: p n)
  case Nil
  then show ?case by (simp add: count_batch.simps)
next
  case (Cons x xs)
  then have "count_batch h (h x) (n + 1) = Some (n + 1 + of_nat (length xs))"
    by simp
  then show ?case
    using Cons.prems by (subst count_batch.simps) (simp add: add.assoc)
qed

subsection \<open>Replenishing from the central cache\<close>

lemma getIndex_zero: "getIndex (if s = 0 then ALIGNMENT else s) = getIndex s"
  by (simp add: getIndex_def ALIGNMENT_def Let_def)

text \<open>
  C5. Let the list of a class be empty and its counter 0, and let \<open>fetchRange\<close> return a
  chain of \<open>k \<ge> 1\<close> slots. Then \<open>allocate\<close> returns (the counting loop ends), the loop
  has counted \<open>k\<close>, the first slot of the chain is the result, the rest is the local
  list, and the counter is \<open>k - 1\<close> in \<open>size_t\<close> arithmetic.
\<close>

theorem replenish_sets_counter:
  assumes "s \<le> MAX_BYTES"
    and "idx = unat (getIndex s)"
    and "tc_free_list t idx = 0" and "tc_free_list_size t idx = 0"
    and "chain (fetchRange_mem e (mem m)) (fetchRange_ret e) xs" and "1 \<le> length xs"
  shows "\<exists>t' m'. allocate e s (t, m) = Some (fetchRange_ret e, t', m') \<and>
           count_batch (fetchRange_mem e (mem m)) (fetchRange_ret e) 0 =
             Some (of_nat (length xs)) \<and>
           tc_free_list_size t' idx = of_nat (length xs) - 1 \<and>
           chain (mem m') (tc_free_list t' idx) (tl xs) \<and>
           trace m' = trace m @ [FetchRange (getIndex s) (fetchRange_ret e)]"
proof -
  obtain x ys where xs: "xs = x # ys"
    using assms(6) by (cases xs) auto
  have st: "fetchRange_ret e = x" "x \<noteq> 0"
    "chain (fetchRange_mem e (mem m)) (fetchRange_mem e (mem m) x) ys"
    using assms(5) xs by auto
  have cb: "count_batch (fetchRange_mem e (mem m)) (fetchRange_ret e) 0 =
              Some (of_nat (length xs))"
    using count_batch_chain [OF assms(5), of 0] by simp
  have le: "\<not> (if s = 0 then ALIGNMENT else s) > MAX_BYTES"
    using assms(1) by (auto simp: ALIGNMENT_def MAX_BYTES_def)
  show ?thesis
    using st cb le assms(2,3,4)
    by (simp add: allocate_def fetchFromCentralCache_def Let_def getIndex_zero xs)
qed

text \<open>A fresh cache that is handed three slots keeps two.\<close>

theorem replenish_sets_counter_witness:
  "(8 :: size_t) \<le> MAX_BYTES \<and>
   chain (linked 4096 3 (mem machine_new)) 4096 (slots 4096 3) \<and>
   map_option fst (allocate (central_gives 4096 3) 8 (ThreadCache_new, machine_new)) = Some 4096 \<and>
   map_option (class_count 0 \<circ> snd) (allocate (central_gives 4096 3) 8 (ThreadCache_new, machine_new)) =
     Some 2 \<and>
   map_option (class_head 0 \<circ> snd) (allocate (central_gives 4096 3) 8 (ThreadCache_new, machine_new)) =
     Some 4104"
proof -
  have sl: "slots 4096 3 = [4096, 4104, 4112]"
    by (simp add: slots_def upt_rec)
  have c: "chain (fetchRange_mem (central_gives 4096 3) (mem machine_new))
             (fetchRange_ret (central_gives 4096 3)) (slots 4096 3)"
    by (simp add: central_gives_def linked_def sl)
  have i: "0 = unat (getIndex 8)"
    by (simp add: getIndex_def ALIGNMENT_def)
  have b: "(8 :: size_t) \<le> MAX_BYTES"
    by (simp add: MAX_BYTES_def)
  obtain t' m' where r:
      "allocate (central_gives 4096 3) 8 (ThreadCache_new, machine_new) =
         Some (fetchRange_ret (central_gives 4096 3), t', m')"
      "tc_free_list_size t' 0 = of_nat (length (slots 4096 3)) - 1"
      "chain (mem m') (tc_free_list t' 0) (tl (slots 4096 3))"
    using replenish_sets_counter [OF b i _ _ c, of ThreadCache_new]
    by (auto simp: ThreadCache_new_def sl)
  show ?thesis
    using b c r by (simp add: sl central_gives_def class_count_def class_head_def)
qed


subsection \<open>Returning to the central cache\<close>

declare split_walk.simps [simp del]

lemma unat_succ_below: "(i :: size_t) < k \<Longrightarrow> unat (i + 1) = unat i + 1"
proof -
  assume "i < k"
  then have "unat i < unat k"
    by (simp add: word_less_nat_alt)
  moreover have "unat k < 2 ^ 64"
    using unsigned_less [of k] by simp
  ultimately show ?thesis
    by (simp add: unat_word_ariths)
qed

lemma split_walk_chain:
  assumes "chain h p xs" and "xs \<noteq> []"
  shows "split_walk h bn keep i p rn =
           (if unat (keep - 1) - unat i < length xs
            then (xs ! (unat (keep - 1) - unat i), rn)
            else (0, bn - (i + of_nat (length xs))))"
  using assms
proof (induction xs arbitrary: p i)
  case Nil
  then show ?case by simp
next
  case (Cons x xs)
  have px: "p = x" "x \<noteq> 0" and rest: "chain h (h x) xs"
    using Cons.prems by auto
  show ?case
  proof (cases "i < keep - 1")
    case False
    then have "unat (keep - 1) - unat i = 0"
      by (simp add: word_less_nat_alt)
    then show ?thesis
      using False px by (subst split_walk.simps) simp
  next
    case True
    have s: "unat (i + 1) = unat i + 1"
      using True by (rule unat_succ_below)
    have lt: "unat i < unat (keep - 1)"
      using True by (simp add: word_less_nat_alt)
    show ?thesis
    proof (cases xs)
      case Nil
      then have "h x = 0"
        using rest by simp
      then show ?thesis
        using True lt px Nil by (subst split_walk.simps) simp
    next
      case (Cons y ys)
      then have hx: "h x = y" "y \<noteq> 0"
        using rest by auto
      have "split_walk h bn keep (i + 1) (h x) rn =
              (if unat (keep - 1) - unat (i + 1) < length xs
               then (xs ! (unat (keep - 1) - unat (i + 1)), rn)
               else (0, bn - (i + 1 + of_nat (length xs))))"
        using Cons.IH [OF rest] Cons by simp
      moreover have "unat (keep - 1) - unat i = Suc (unat (keep - 1) - unat (i + 1))"
        using s lt by simp
      ultimately show ?thesis
        using True px hx by (subst split_walk.simps) (simp add: Let_def add.assoc)
    qed
  qed
qed

lemma chain_after_prefix:
  "chain h p (ys @ zs) \<Longrightarrow> ys \<noteq> [] \<Longrightarrow> chain h (h (last ys)) zs"
  by (induction ys arbitrary: p) auto

lemma chain_cut_prefix:
  "chain h p (ys @ zs) \<Longrightarrow> ys \<noteq> [] \<Longrightarrow> chain (h(last ys := 0)) p ys"
proof (induction ys arbitrary: p)
  case Nil
  then show ?case by simp
next
  case (Cons y ys)
  have py: "p = y" "y \<noteq> 0" and rest: "chain h (h y) (ys @ zs)"
    using Cons.prems by auto
  show ?case
  proof (cases "ys = []")
    case True
    then show ?thesis using py by simp
  next
    case False
    have "y \<notin> set (ys @ zs)"
      using rest by (rule chain_head_fresh)
    then have "y \<noteq> last ys"
      using False by auto
    moreover have "chain (h(last ys := 0)) (h y) ys"
      using Cons.IH [OF rest False] .
    ultimately have "chain (h(last ys := 0)) p (y # ys)"
      using py by simp
    moreover have "last (y # ys) = last ys"
      using False by simp
    ultimately show ?thesis
      by (simp only:)
  qed
qed

lemma chain_cut_suffix:
  assumes "chain h p (ys @ zs)" and "ys \<noteq> []"
  shows "chain (h(last ys := 0)) (h (last ys)) zs"
proof -
  have "distinct (ys @ zs)"
    using assms(1) by (rule chain_distinct)
  moreover have "last ys \<in> set ys"
    using assms(2) by simp
  ultimately have "last ys \<notin> set zs"
    by auto
  then show ?thesis
    using chain_after_prefix [OF assms] by (simp add: chain_update_other)
qed

lemma chain_next:
  assumes "chain h p xs" and "k < length xs"
  shows "h (xs ! k) = (if Suc k < length xs then xs ! Suc k else 0)"
  using assms
proof (induction xs arbitrary: p k)
  case Nil
  then show ?case by simp
next
  case (Cons x xs)
  show ?case
  proof (cases k)
    case 0
    then show ?thesis using Cons.prems by (cases xs) auto
  next
    case (Suc j)
    then show ?thesis using Cons.prems Cons.IH [of "h x" j] by auto
  qed
qed

lemma keep_num_facts:
  fixes n :: size_t
  assumes "1 < n"
  shows "unat (max (n div 4) 1) = max (unat n div 4) 1"
    and "unat (max (n div 4) 1 - 1) = max (unat n div 4) 1 - 1"
    and "0 < n - max (n div 4) 1"
    and "unat (n - max (n div 4) 1) = unat n - max (unat n div 4) 1"
proof -
  have n1: "1 < unat n"
    using assms by (simp add: word_less_nat_alt)
  have d: "unat (n div 4) = unat n div 4"
    by (simp add: unat_div)
  show k: "unat (max (n div 4) 1) = max (unat n div 4) 1"
    using d by (simp add: max_def word_le_nat_alt)
  have ge: "1 \<le> max (n div 4) 1"
    by simp
  show "unat (max (n div 4) 1 - 1) = max (unat n div 4) 1 - 1"
    using k ge by (simp add: unat_sub)
  have lt: "max (unat n div 4) 1 < unat n"
    using n1 by (simp add: max_def)
  then have le: "max (n div 4) 1 \<le> n"
    using k by (simp add: word_le_nat_alt)
  show u: "unat (n - max (n div 4) 1) = unat n - max (unat n div 4) 1"
    using le k by (simp add: unat_sub)
  show "0 < n - max (n div 4) 1"
    using u lt by (simp add: word_less_nat_alt)
qed

lemma returnTocentralCache_chain:
  assumes c: "chain (mem m) start xs" and ne: "xs \<noteq> []"
    and n: "n = tc_free_list_size t (unat (getIndex s))" and big: "1 < n"
    and K: "K = max (unat n div 4) 1"
  shows "returnTocentralCache start s (t, m) =
     (if length xs < K then (t, m)
      else (t\<lparr>tc_free_list := (tc_free_list t)(unat (getIndex s) := start),
              tc_free_list_size := (tc_free_list_size t)(unat (getIndex s) := max (n div 4) 1)\<rparr>,
            if K < length xs
            then m\<lparr>mem := (mem m)(xs ! (K - 1) := 0),
                   trace := trace m @
                     [RerurnRange (xs ! K) ((n - max (n div 4) 1) * roundUp s) (getIndex s)]\<rparr>
            else m\<lparr>mem := (mem m)(xs ! (K - 1) := 0)\<rparr>))"
proof -
  have K1: "1 \<le> K"
    using K by simp
  have sw: "split_walk (mem m) n (max (n div 4) 1) 0 start (n - max (n div 4) 1) =
              (if K - 1 < length xs then (xs ! (K - 1), n - max (n div 4) 1)
               else (0, n - (0 + of_nat (length xs))))"
    using split_walk_chain [OF c ne, of n "max (n div 4) 1" 0 "n - max (n div 4) 1"]
      keep_num_facts(2) [OF big] K by simp
  have nb: "\<not> n \<le> 1"
    using big by (simp add: word_less_nat_alt word_le_nat_alt)
  show ?thesis
  proof (cases "length xs < K")
    case True
    then have "\<not> K - 1 < length xs"
      by simp
    then show ?thesis
      using True sw nb n by (simp add: returnTocentralCache_def Let_def)
  next
    case False
    then have in_range: "K - 1 < length xs"
      using K1 by simp
    then have "xs ! (K - 1) \<in> set xs"
      by simp
    then have nz: "xs ! (K - 1) \<noteq> 0"
      using chain_nonzero [OF c] by metis
    have nx: "mem m (xs ! (K - 1)) = (if K < length xs then xs ! K else 0)"
      using chain_next [OF c in_range] K1 by simp
    have nzK: "K < length xs \<Longrightarrow> xs ! K \<noteq> 0"
      using chain_nonzero [OF c] by (metis nth_mem)
    show ?thesis
      using False in_range sw nb n nz nx nzK keep_num_facts(3) [OF big]
      by (simp add: returnTocentralCache_def Let_def)
  qed
qed

lemma take_last_nth:
  assumes "0 < K" and "K \<le> length xs"
  shows "last (take K xs) = xs ! (K - 1)"
proof -
  have "take K xs \<noteq> []"
    using assms by auto
  then have "last (take K xs) = take K xs ! (length (take K xs) - 1)"
    by (rule last_conv_nth)
  then show ?thesis
    using assms by (simp add: min_def)
qed

text \<open>
  C3, amended. Let \<open>deallocate(ptr, s)\<close> raise the counter of the class to \<open>n > 256\<close>, let
  \<open>xs\<close> be the local chain after the push (\<open>ptr\<close> first) and \<open>K = max (n div 4) 1\<close>.
  \<^item> If the chain has more than \<open>K\<close> slots, its first \<open>K\<close> slots stay local, the counter
    becomes \<open>K\<close>, and all the remaining slots go to \<open>CentralCache\<close> as one chain in one
    call, announced as \<open>(n - K) * roundUp(s)\<close> bytes. When the counter is exact
    (\<open>length xs = n\<close>) these are the \<open>n - K\<close> slots of the claim.
  \<^item> If the chain has exactly \<open>K\<close> slots, all of them stay, the counter becomes \<open>K\<close> and
    \<open>CentralCache\<close> is not called.
  \<^item> If the chain has fewer than \<open>K\<close> slots, the loop runs off its end and the call is
    the push alone: the counter stays \<open>n\<close> and \<open>CentralCache\<close> is not called.
\<close>

theorem deallocate_over_threshold:
  assumes "s \<le> MAX_BYTES" and "ptr \<noteq> 0"
    and "idx = unat (getIndex s)"
    and "chain ((mem m)(ptr := tc_free_list t idx)) ptr xs"
    and "n = tc_free_list_size t idx + 1" and "256 < n"
    and "K = max (unat n div 4) 1"
  shows "\<exists>t' m'. deallocate ptr s (t, m) = Some (t', m') \<and>
     (K < length xs \<longrightarrow>
        chain (mem m') (tc_free_list t' idx) (take K xs) \<and>
        unat (tc_free_list_size t' idx) = K \<and>
        chain (mem m') (xs ! K) (drop K xs) \<and>
        trace m' = trace m @ [RerurnRange (xs ! K) ((n - of_nat K) * roundUp s) (getIndex s)]) \<and>
     (K = length xs \<longrightarrow>
        chain (mem m') (tc_free_list t' idx) xs \<and>
        unat (tc_free_list_size t' idx) = K \<and>
        trace m' = trace m) \<and>
     (length xs < K \<longrightarrow>
        chain (mem m') (tc_free_list t' idx) xs \<and>
        tc_free_list_size t' idx = n \<and>
        trace m' = trace m)"
proof -
  define m1 where "m1 = m\<lparr>mem := (mem m)(ptr := tc_free_list t idx)\<rparr>"
  define t2 where "t2 = t\<lparr>tc_free_list := (tc_free_list t)(idx := ptr),
                          tc_free_list_size := (tc_free_list_size t)(idx := n)\<rparr>"
  define keep where "keep = max (n div 4) 1"
  have big: "1 < n"
    using assms(6) by (simp add: word_less_nat_alt)
  have c: "chain (mem m1) ptr xs"
    using assms(4) by (simp add: m1_def)
  have ne: "xs \<noteq> []"
    using assms(2,4) by auto
  have n2: "n = tc_free_list_size t2 (unat (getIndex s))"
    using assms(3) by (simp add: t2_def)
  have Kk: "unat keep = K"
    using keep_num_facts(1) [OF big] assms(7) by (simp add: keep_def)
  have "of_nat (unat keep) = keep"
    by simp
  then have kK: "of_nat K = keep"
    by (simp only: Kk)
  have K1: "0 < K"
    using assms(7) by simp
  have small: "\<not> MAX_BYTES < s"
    using assms(1) by (simp add: not_less)
  have d: "deallocate ptr s (t, m) = Some (returnTocentralCache ptr s (t2, m1))"
    using small assms(2,3,5,6)
    by (simp add: deallocate_def Let_def sholdReturnToCentralCache_def t2_def m1_def)
  have r: "returnTocentralCache ptr s (t2, m1) =
     (if length xs < K then (t2, m1)
      else (t2\<lparr>tc_free_list := (tc_free_list t2)(idx := ptr),
               tc_free_list_size := (tc_free_list_size t2)(idx := keep)\<rparr>,
            if K < length xs
            then m1\<lparr>mem := (mem m1)(xs ! (K - 1) := 0),
                    trace := trace m1 @
                      [RerurnRange (xs ! K) ((n - keep) * roundUp s) (getIndex s)]\<rparr>
            else m1\<lparr>mem := (mem m1)(xs ! (K - 1) := 0)\<rparr>))"
    using returnTocentralCache_chain [OF c ne n2 big assms(7)] assms(3)
    by (simp add: keep_def)
  consider (long) "K < length xs" | (exact) "K = length xs" | (short) "length xs < K"
    by linarith
  then show ?thesis
  proof cases
    case long
    have sp: "chain (mem m1) ptr (take K xs @ drop K xs)" and tne: "take K xs \<noteq> []"
      using c ne K1 by auto
    have l: "last (take K xs) = xs ! (K - 1)"
      using K1 long by (simp add: take_last_nth)
    have nx: "mem m1 (xs ! (K - 1)) = xs ! K"
      using chain_next [OF c, of "K - 1"] K1 long by simp
    have p1: "chain ((mem m1)(xs ! (K - 1) := 0)) ptr (take K xs)"
      using chain_cut_prefix [OF sp tne] l by simp
    have p2: "chain ((mem m1)(xs ! (K - 1) := 0)) (xs ! K) (drop K xs)"
      using chain_cut_suffix [OF sp tne] l nx by simp
    show ?thesis
      using long d r p1 p2 Kk kK by (simp add: m1_def)
  next
    case exact
    have nx: "mem m1 (xs ! (K - 1)) = 0"
      using chain_next [OF c, of "K - 1"] K1 exact by simp
    then have "(mem m1)(xs ! (K - 1) := 0) = mem m1"
      by (metis fun_upd_triv)
    then show ?thesis
      using exact d r c Kk by (simp add: m1_def)
  next
    case short
    then show ?thesis
      using d r c by (simp add: t2_def m1_def)
  qed
qed


text \<open>
  The main case on a run: a fresh cache is handed 258 slots from 4088 on and gives out the
  first; when that slot comes back, the counter reaches 258, the first 64 slots stay and
  the other 194 go back in one call.
\<close>

theorem deallocate_over_threshold_witness:
  "\<exists>t m. run [CallAllocate (central_gives 4088 258) 8] (ThreadCache_new, machine_new) = Some (t, m) \<and>
     (8 :: size_t) \<le> MAX_BYTES \<and>
     chain ((mem m)(4088 := tc_free_list t 0)) 4088 (slots 4088 258) \<and>
     tc_free_list_size t 0 + 1 = 258 \<and>
     map_option calls (deallocate 4088 8 (t, m)) =
       Some [FetchRange 0 4088, RerurnRange 4600 1552 0] \<and>
     map_option (unat \<circ> class_count 0) (deallocate 4088 8 (t, m)) = Some 64"
proof -
  have "\<exists>t m. run [CallAllocate (central_gives 4088 258) 8] (ThreadCache_new, machine_new) = Some (t, m) \<and>
          tc_free_list t 0 = 4096 \<and> tc_free_list_size t 0 = 257 \<and>
          mem m = linked 4088 258 (mem machine_new) \<and> trace m = [FetchRange 0 4088]"
    by (simp add: allocate_def fetchFromCentralCache_def central_gives_def ThreadCache_new_def
        machine_new_def ALIGNMENT_def MAX_BYTES_def getIndex_def count_batch.simps Let_def
        linked_def)
  then obtain t m where
      r: "run [CallAllocate (central_gives 4088 258) 8] (ThreadCache_new, machine_new) = Some (t, m)"
      and h: "tc_free_list t 0 = 4096" and n: "tc_free_list_size t 0 = 257"
      and mm: "mem m = linked 4088 258 (mem machine_new)" and tr: "trace m = [FetchRange 0 4088]"
    by blast
  have b: "(8 :: size_t) \<le> MAX_BYTES"
    by (simp add: MAX_BYTES_def)
  have p: "(4088 :: addr) \<noteq> 0"
    by simp
  have i: "0 = unat (getIndex 8)"
    by (simp add: getIndex_def ALIGNMENT_def)
  have "chain ((linked 4088 258 (mem machine_new))(4088 := 4096)) 4088 (slots 4088 258)"
    by (simp add: slots_def linked_def upt_rec)
  then have c: "chain ((mem m)(4088 := tc_free_list t 0)) 4088 (slots 4088 258)"
    by (simp only: mm h)
  have n1: "(258 :: size_t) = tc_free_list_size t 0 + 1"
    by (simp add: n)
  have big: "(256 :: size_t) < 258"
    by simp
  have k: "(64 :: nat) = max (unat (258 :: size_t) div 4) 1"
    by simp
  have len: "64 < length (slots 4088 258)"
    by (simp add: slots_def)
  have x: "slots 4088 258 ! 64 = 4600"
    by (simp add: slots_def)
  have bytes: "(258 - of_nat 64) * roundUp 8 = (1552 :: size_t)"
    by (simp add: roundUp_def ALIGNMENT_def)
  have gi: "getIndex 8 = 0"
    by (simp add: getIndex_def ALIGNMENT_def)
  obtain t' m' where d: "deallocate 4088 8 (t, m) = Some (t', m')"
    and tr': "trace m' = trace m @ [RerurnRange 4600 1552 0]"
    and cn: "unat (tc_free_list_size t' 0) = 64"
    using deallocate_over_threshold [OF b p i c n1 big k] len
    by (auto simp only: x bytes gi)
  have "map_option calls (deallocate 4088 8 (t, m)) =
          Some [FetchRange 0 4088, RerurnRange 4600 1552 0]"
    by (simp add: d calls_def tr' tr)
  moreover have "map_option (unat \<circ> class_count 0) (deallocate 4088 8 (t, m)) = Some 64"
    by (simp add: d class_count_def cn)
  moreover have "tc_free_list_size t 0 + 1 = 258"
    by (simp add: n)
  ultimately show ?thesis
    using r b c by blast
qed

subsection \<open>Runs from a fresh cache\<close>

lemmas thread_cache_defs =
  allocate_def deallocate_def fetchFromCentralCache_def returnTocentralCache_def
  sholdReturnToCentralCache_def central_gives_def central_empty_def linked_def
  ThreadCache_new_def machine_new_def
  ALIGNMENT_def MAX_BYTES_def getIndex_def roundUp_def count_batch.simps split_walk.simps
  calls_def class_count_def class_head_def link_at_def Let_def

text \<open>
  C3, as stated, promises a batch return that sets the counter to the retained count
  whenever \<open>deallocate\<close> raises the counter above 256. In this run the counter of class 0
  is 256 while its list is empty (the second \<open>allocate\<close> dropped the list it found).
  \<open>deallocate(4096, 8)\<close> then raises the counter to 257 with one slot on the list: nothing
  is returned to \<open>CentralCache\<close> and the counter stays 257.
\<close>

theorem short_chain_no_return_counterexample:
  "map_option calls
     (run [CallAllocate (central_gives 4096 257) 8, CallAllocate (central_gives 8192 1) 8,
           CallDeallocate 4096 8] (ThreadCache_new, machine_new)) =
     Some [FetchRange 0 4096, FetchRange 0 8192] \<and>
   map_option (class_count 0)
     (run [CallAllocate (central_gives 4096 257) 8, CallAllocate (central_gives 8192 1) 8,
           CallDeallocate 4096 8] (ThreadCache_new, machine_new)) = Some 257 \<and>
   map_option (class_head 0)
     (run [CallAllocate (central_gives 4096 257) 8, CallAllocate (central_gives 8192 1) 8,
           CallDeallocate 4096 8] (ThreadCache_new, machine_new)) = Some 4096 \<and>
   map_option (link_at 4096)
     (run [CallAllocate (central_gives 4096 257) 8, CallAllocate (central_gives 8192 1) 8,
           CallDeallocate 4096 8] (ThreadCache_new, machine_new)) = Some 0"
  by (simp add: thread_cache_defs)

text \<open>
  The same happens on a run in which every \<open>allocate\<close> finds the local list empty. Two
  failed fetches leave the counter at \<open>2^64 - 2\<close> (each call decrements it first), the
  \<open>deallocate\<close> of the one slot handed out before raises it to \<open>2^64 - 1\<close>, and again
  nothing is returned and the counter stays.
\<close>

theorem no_return_after_failed_fetches:
  "map_option calls
     (run [CallAllocate (central_gives 4096 1) 8, CallAllocate central_empty 8,
           CallAllocate central_empty 8, CallDeallocate 4096 8] (ThreadCache_new, machine_new)) =
     Some [FetchRange 0 4096, FetchRange 0 0, FetchRange 0 0] \<and>
   map_option (class_count 0)
     (run [CallAllocate (central_gives 4096 1) 8, CallAllocate central_empty 8,
           CallAllocate central_empty 8, CallDeallocate 4096 8] (ThreadCache_new, machine_new)) =
     Some (- 1) \<and>
   map_option (class_head 0)
     (run [CallAllocate (central_gives 4096 1) 8, CallAllocate central_empty 8,
           CallAllocate central_empty 8, CallDeallocate 4096 8] (ThreadCache_new, machine_new)) =
     Some 4096 \<and>
   map_option (link_at 4096)
     (run [CallAllocate (central_gives 4096 1) 8, CallAllocate central_empty 8,
           CallAllocate central_empty 8, CallDeallocate 4096 8] (ThreadCache_new, machine_new)) =
     Some 0"
  by (simp add: thread_cache_defs word_le_nat_alt word_less_nat_alt)

text \<open>
  C4 says that no chain of fewer than two slots is passed to \<open>CentralCache\<close>. In this run
  the second \<open>allocate\<close> finds 193 slots on the list of class 0, drops them, and leaves a
  list of 64 slots with the counter at 257. \<open>deallocate(4096, 8)\<close> makes it 65 slots and
  258; 64 slots are kept and the call \<open>rerurnRange(8704, 194 * 8, 0)\<close> passes a chain whose
  only slot is 8704 (its link word is null).
\<close>

theorem single_slot_batch_returned:
  "map_option calls
     (run [CallAllocate (central_gives 4096 194) 8, CallAllocate (central_gives 8192 65) 8,
           CallDeallocate 4096 8] (ThreadCache_new, machine_new)) =
     Some [FetchRange 0 4096, FetchRange 0 8192, RerurnRange 8704 1552 0] \<and>
   map_option (link_at 8704)
     (run [CallAllocate (central_gives 4096 194) 8, CallAllocate (central_gives 8192 65) 8,
           CallDeallocate 4096 8] (ThreadCache_new, machine_new)) = Some 0 \<and>
   map_option (class_count 0)
     (run [CallAllocate (central_gives 4096 194) 8, CallAllocate (central_gives 8192 65) 8,
           CallDeallocate 4096 8] (ThreadCache_new, machine_new)) = Some 64"
  by (simp add: thread_cache_defs word_le_nat_alt)

end
